theory Spec2Isabelle
  imports Main "HOL-Library.Word"
begin

unbundle bit_operations_syntax

section \<open>Time engine (systime.h, systime.c)\<close>

subsection \<open>Data model\<close>

type_synonym u8 = "8 word"
type_synonym u16 = "16 word"
type_synonym u32 = "32 word"

text \<open>\<^verbatim>\<open>date_t\<close>: January is month 1.\<close>

record date =
  year :: u16
  month :: u8
  day :: u8

text \<open>\<^verbatim>\<open>clock_t\<close>. The field \<^verbatim>\<open>min\<close> of the source is called \<open>minu\<close>,
  since \<open>min\<close> is a constant of HOL.\<close>

record clock =
  hour :: u8
  minu :: u8
  sec :: u8
  t_sec :: u8

text \<open>The callbacks that the program hands to the tick driver.\<close>

datatype callback = systime_IncDate_cb | Alarm_cb

text \<open>\<^verbatim>\<open>systime_t\<close>: the date and the tick driver's descriptor. The descriptor's type
  is declared in \<^verbatim>\<open>systick.h\<close>; its fields are the ones \<^verbatim>\<open>systime.c\<close> reads and
  writes, flattened: \<^verbatim>\<open>systick.counter.value\<close> is \<open>counter_value\<close>, and so on. The
  counters are taken to be 32 bits wide, as the value of \<^verbatim>\<open>systime_ConvertClock\<close> that is
  stored in them. A \<^verbatim>\<open>NULL\<close> callback is \<open>None\<close>.\<close>

record systime =
  date :: date
  tick_rate :: u32
  counter_value :: u32
  counter_cmp_en :: bool
  counter_cmp :: u32
  counter_cb :: "callback option"
  countdown_en :: bool
  countdown_value :: u32
  countdown_cb :: "callback option"

subsection \<open>Constants of \<^verbatim>\<open>systime.h\<close>\<close>

abbreviation (input) TSEC_IN_SEC :: "'a::numeral" where "TSEC_IN_SEC \<equiv> 10"
abbreviation (input) SEC_IN_MIN :: "'a::numeral" where "SEC_IN_MIN \<equiv> 60"
abbreviation (input) MIN_IN_HOUR :: "'a::numeral" where "MIN_IN_HOUR \<equiv> 60"
abbreviation (input) HOUR_IN_DAY :: "'a::numeral" where "HOUR_IN_DAY \<equiv> 24"
abbreviation (input) TSEC_IN_MIN :: "'a::numeral" where "TSEC_IN_MIN \<equiv> 600"
abbreviation (input) TSEC_IN_HOUR :: "'a::numeral" where "TSEC_IN_HOUR \<equiv> 36000"
abbreviation (input) TSEC_IN_DAY :: "'a::numeral" where "TSEC_IN_DAY \<equiv> 864000"
abbreviation (input) MONTH_IN_YEAR :: "'a::numeral" where "MONTH_IN_YEAR \<equiv> 12"

text \<open>\<^verbatim>\<open>IS_LEAP_YR\<close>: the year is promoted to \<^verbatim>\<open>int\<close>, so the remainders are those
  of its unsigned value.\<close>

definition IS_LEAP_YR :: "u16 \<Rightarrow> bool" where
  "IS_LEAP_YR yr \<longleftrightarrow>
     unat yr mod 4 = 0 \<and> (unat yr mod 400 = 0 \<or> unat yr mod 100 \<noteq> 0)"

definition MONTH_DAYS :: "u8 list list" where
  "MONTH_DAYS =
     [[31, 28, 31, 30, 31, 30, 31, 31, 30, 31, 30, 31],
      [31, 29, 31, 30, 31, 30, 31, 31, 30, 31, 30, 31]]"

subsection \<open>Conversions\<close>

text \<open>\<^verbatim>\<open>DaysInMonth\<close> takes a 0-based month. The table has 12 columns; an index of
  12 or more reads outside the row, which C leaves undefined: the model returns \<open>None\<close>
  there.\<close>

definition DaysInMonth :: "u8 \<Rightarrow> u16 \<Rightarrow> u8 option" where
  "DaysInMonth mth yr =
     (if unat mth < 12
      then Some (MONTH_DAYS ! (if IS_LEAP_YR yr then 1 else 0) ! unat mth)
      else None)"

text \<open>\<^verbatim>\<open>systime_ConvertClock\<close>: the fields are promoted to \<^verbatim>\<open>int\<close>; the largest sum,
  \<open>255 + 255 * 10 + 255 * 600 + 255 * 36000\<close>, is below \<open>2 ^ 31\<close>, so the 32-bit sum of
  the widened fields is the value returned as \<^verbatim>\<open>uint32_t\<close>.\<close>

definition systime_ConvertClock :: "clock \<Rightarrow> u32" where
  "systime_ConvertClock clock =
     ucast (t_sec clock) +
     ucast (sec clock) * TSEC_IN_SEC +
     ucast (minu clock) * TSEC_IN_MIN +
     ucast (hour clock) * TSEC_IN_HOUR"

text \<open>\<^verbatim>\<open>systime_ConvertTickCounter\<close>: each quotient is truncated to the 8-bit field
  it is stored in, and the running count is reduced by the stored field, not by the
  quotient.\<close>

definition systime_ConvertTickCounter :: "u32 \<Rightarrow> clock" where
  "systime_ConvertTickCounter t_count =
     (let h = (ucast (t_count div TSEC_IN_HOUR) :: u8);
          t1 = t_count - TSEC_IN_HOUR * ucast h;
          m = (ucast (t1 div TSEC_IN_MIN) :: u8);
          t2 = t1 - TSEC_IN_MIN * ucast m;
          s = (ucast (t2 div TSEC_IN_SEC) :: u8);
          t3 = t2 - TSEC_IN_SEC * ucast s
      in \<lparr>hour = h, minu = m, sec = s, t_sec = ucast t3\<rparr>)"

subsection \<open>Operations\<close>

text \<open>\<^verbatim>\<open>systime_init\<close>: the state it leaves. \<^verbatim>\<open>SysTick_Init\<close> belongs to the tick
  driver.\<close>

definition systime_init :: systime where
  "systime_init =
     \<lparr>date = \<lparr>year = 0, month = 1, day = 1\<rparr>,
      tick_rate = 10,
      counter_value = 0,
      counter_cmp_en = True,
      counter_cmp = TSEC_IN_DAY,
      counter_cb = Some systime_IncDate_cb,
      countdown_en = False,
      countdown_value = 0,
      countdown_cb = None\<rparr>"

text \<open>\<^verbatim>\<open>systime_SetTime\<close> returns \<^verbatim>\<open>retval\<close> and the state of \<^verbatim>\<open>time\<close>.\<close>

definition systime_SetTime :: "clock \<Rightarrow> systime \<Rightarrow> bool \<times> systime" where
  "systime_SetTime new_clock time =
     (if t_sec new_clock < TSEC_IN_SEC \<and>
         sec new_clock < SEC_IN_MIN \<and>
         minu new_clock < MIN_IN_HOUR \<and>
         hour new_clock < HOUR_IN_DAY
      then (True, time\<lparr>counter_value := systime_ConvertClock new_clock\<rparr>)
      else (False, time))"

definition systime_GetTime :: "systime \<Rightarrow> clock" where
  "systime_GetTime time = systime_ConvertTickCounter (counter_value time)"

text \<open>\<^verbatim>\<open>systime_SetDate\<close>: the operands of \<^verbatim>\<open>&&\<close> are evaluated left to right, so
  \<^verbatim>\<open>DaysInMonth\<close> is called only with a month in 1..12 and its index \<open>month - 1\<close> is
  inside the table (lemma \<open>DaysInMonth_in_range\<close>); the \<open>None\<close> branch is never
  taken.\<close>

definition systime_SetDate :: "date \<Rightarrow> systime \<Rightarrow> bool \<times> systime" where
  "systime_SetDate new_date time =
     (if year new_date < 9999 \<and>
         month new_date > 0 \<and> month new_date \<le> MONTH_IN_YEAR \<and>
         day new_date > 0 \<and>
         (case DaysInMonth (month new_date - 1) (year new_date) of
            Some n \<Rightarrow> day new_date \<le> n
          | None \<Rightarrow> False)
      then (True, time\<lparr>date := new_date\<rparr>)
      else (False, time))"

definition systime_GetDate :: "systime \<Rightarrow> date" where
  "systime_GetDate time = date time"

definition systime_SetAlarm :: "clock \<Rightarrow> callback \<Rightarrow> systime \<Rightarrow> bool \<times> systime" where
  "systime_SetAlarm alarm_clock alarm_cb time =
     (True, time\<lparr>countdown_cb := Some alarm_cb,
                  countdown_value := systime_ConvertClock alarm_clock,
                  countdown_en := True\<rparr>)"

definition systime_ClearAlarm :: "systime \<Rightarrow> systime" where
  "systime_ClearAlarm time = time\<lparr>countdown_en := False\<rparr>"

text \<open>\<^verbatim>\<open>systime_IncDate_callback\<close>: \<open>None\<close> when the unguarded call of
  \<^verbatim>\<open>DaysInMonth\<close> reads outside the table (a stored month of 0 or above 12).\<close>

definition systime_IncDate_callback :: "systime \<Rightarrow> systime option" where
  "systime_IncDate_callback time =
     (let d1 = (date time)\<lparr>day := day (date time) + 1\<rparr> in
      case DaysInMonth (month d1 - 1) (year d1) of
        None \<Rightarrow> None
      | Some n \<Rightarrow>
          Some (if day d1 > n
                then (let d2 = d1\<lparr>day := 1, month := month d1 + 1\<rparr> in
                      if month d2 > MONTH_IN_YEAR
                      then time\<lparr>date := d2\<lparr>month := 1, year := year d2 + 1\<rparr>\<rparr>
                      else time\<lparr>date := d2\<rparr>)
                else time\<lparr>date := d1\<rparr>))"

subsection \<open>The date invariant\<close>

text \<open>The month is 1..12 and the day is 1..the length of that month in that year.\<close>

definition date_inv :: "date \<Rightarrow> bool" where
  "date_inv d \<longleftrightarrow>
     1 \<le> month d \<and> month d \<le> 12 \<and> 1 \<le> day d \<and>
     (case DaysInMonth (month d - 1) (year d) of
        Some n \<Rightarrow> day d \<le> n
      | None \<Rightarrow> False)"

section \<open>Command interpreter (query_handler.h, query_handler.c)\<close>

subsection \<open>Data model\<close>

text \<open>\<^verbatim>\<open>query_buffer_t\<close>. The type \<^verbatim>\<open>circular_buffer_t\<close> of its member \<^verbatim>\<open>buffer\<close> is
  declared in \<^verbatim>\<open>uart.h\<close>; the members used here are \<^verbatim>\<open>buffer.data\<close> (\<open>data\<close>, the
  whole array: its length is the buffer's capacity) and \<^verbatim>\<open>buffer.wr_ptr\<close> (\<open>wr_ptr\<close>, the
  cursor, taken to be 32 bits wide as \<^verbatim>\<open>entry_ptr\<close> is).\<close>

record query_buffer =
  data :: string
  wr_ptr :: u32
  entry_ptr :: u32

text \<open>The state of the program: the static \<^verbatim>\<open>time\<close> of \<^verbatim>\<open>systime.c\<close>, the static
  \<^verbatim>\<open>query\<close> of \<^verbatim>\<open>query_handler.c\<close>, and the strings handed to \<^verbatim>\<open>UART0_puts\<close> so far,
  oldest first.\<close>

record monitor =
  systime_state :: systime
  query_state :: query_buffer
  uart_tx :: "string list"

text \<open>The two calls of the C library's \<^verbatim>\<open>sscanf\<close> are parameters of the model. Each
  takes the string at the argument pointer (the bytes before its terminating NUL) and
  returns the number of fields assigned together with the contents of the variables
  afterwards: \<open>sscanf_clock\<close> for the format \<^verbatim>\<open>%2hhu:%2hhu:%2hhu.%1hhu\<close>, and
  \<open>sscanf_date\<close> for \<^verbatim>\<open>%hhu-%3s-%hu\<close> (day, the bytes of \<^verbatim>\<open>month_str\<close>, year).\<close>

record extern =
  sscanf_clock :: "string \<Rightarrow> int \<times> clock"
  sscanf_date :: "string \<Rightarrow> int \<times> u8 \<times> string \<times> u16"

subsection \<open>Constants\<close>

definition MONTHS :: "string list" where
  "MONTHS =
     [''JAN'', ''FEB'', ''MAR'', ''APR'', ''MAY'', ''JUN'',
      ''JUL'', ''AUG'', ''SEP'', ''OCT'', ''NOV'', ''DEC'']"

definition TIME_QUERY :: string where "TIME_QUERY = ''TIME''"
definition DATE_QUERY :: string where "DATE_QUERY = ''DATE''"
definition ALARM_QUERY :: string where "ALARM_QUERY = ''ALARM''"

definition CURSOR_LEFT :: string where "CURSOR_LEFT = [CHR 0x1B, CHR ''['', CHR ''D'']"
definition CURSOR_RIGHT :: string where "CURSOR_RIGHT = [CHR 0x1B, CHR ''['', CHR ''C'']"
definition CURSOR_UP :: string where "CURSOR_UP = [CHR 0x1B, CHR ''['', CHR ''A'']"
definition CURSOR_DOWN :: string where "CURSOR_DOWN = [CHR 0x1B, CHR ''['', CHR ''B'']"
definition ALARM_BELL :: string where "ALARM_BELL = [CHR 0x07]"

abbreviation (input) VALID_DATE_SCAN :: int where "VALID_DATE_SCAN \<equiv> 3"
abbreviation (input) VALID_TIME_SCAN :: int where "VALID_TIME_SCAN \<equiv> 4"
abbreviation (input) VALID_ALARM_SCAN :: int where "VALID_ALARM_SCAN \<equiv> VALID_TIME_SCAN"

abbreviation (input) NUL :: char where "NUL \<equiv> CHR 0x00"
abbreviation (input) NL :: char where "NL \<equiv> CHR 0x0A"

subsection \<open>Output\<close>

definition UART0_puts :: "string \<Rightarrow> monitor \<Rightarrow> monitor" where
  "UART0_puts s st = st\<lparr>uart_tx := uart_tx st @ [s]\<rparr>"

text \<open>The conversions of \<^verbatim>\<open>sprintf\<close> that the program uses. \<open>digits k n\<close> is the last
  \<open>k\<close> decimal digits of \<open>n\<close>; \<open>fmt_u w n\<close> is \<^verbatim>\<open>%0wu\<close> for a value below 100000
  (the arguments are 8-bit and 16-bit fields): at least \<open>w\<close> digits, padded with zeros.\<close>

fun digits :: "nat \<Rightarrow> nat \<Rightarrow> string" where
  "digits 0 n = []"
| "digits (Suc k) n = digits k (n div 10) @ [char_of (48 + n mod 10)]"

definition ndigits :: "nat \<Rightarrow> nat" where
  "ndigits n =
     (if n < 10 then 1 else if n < 100 then 2 else if n < 1000 then 3
      else if n < 10000 then 4 else 5)"

definition fmt_u :: "nat \<Rightarrow> nat \<Rightarrow> string" where
  "fmt_u w n = digits (max w (ndigits n)) n"

text \<open>\<^verbatim>\<open>sprintf(time_str, "%02u:%02u:%02u.%u", hour, min, sec, t_sec)\<close>\<close>

definition sprintf_clock :: "clock \<Rightarrow> string" where
  "sprintf_clock c =
     fmt_u 2 (unat (hour c)) @ '':'' @ fmt_u 2 (unat (minu c)) @ '':'' @
     fmt_u 2 (unat (sec c)) @ ''.'' @ fmt_u 1 (unat (t_sec c))"

text \<open>\<^verbatim>\<open>sprintf(date_str, "%02u-%3s-%04u", day, MONTHS[month-1], year)\<close>: \<open>None\<close> when
  the index \<open>month - 1\<close> is outside the table of month names.\<close>

definition sprintf_date :: "date \<Rightarrow> string option" where
  "sprintf_date d =
     (if unat (month d) - 1 < 12 \<and> month d \<noteq> 0
      then Some (fmt_u 2 (unat (day d)) @ ''-'' @ MONTHS ! (unat (month d) - 1) @ ''-'' @
                 fmt_u 4 (unat (year d)))
      else None)"

subsection \<open>Time, date and alarm commands\<close>

definition SetTime :: "extern \<Rightarrow> string \<Rightarrow> monitor \<Rightarrow> bool \<times> monitor" where
  "SetTime env new_time_str st =
     (let (scan_res, clock_temp) = sscanf_clock env new_time_str in
      if scan_res = VALID_TIME_SCAN
      then (case systime_SetTime clock_temp (systime_state st) of
              (True, t') \<Rightarrow>
                (True, UART0_puts [CHR '' '', NL]
                         (UART0_puts (sprintf_clock clock_temp) (st\<lparr>systime_state := t'\<rparr>)))
            | (False, t') \<Rightarrow> (False, st\<lparr>systime_state := t'\<rparr>))
      else (False, st))"

definition DisplayTime :: "monitor \<Rightarrow> monitor" where
  "DisplayTime st =
     (let clock_temp = systime_GetTime (systime_state st) in
      UART0_puts [CHR '' '', NL] (UART0_puts (sprintf_clock clock_temp) st))"

text \<open>\<^verbatim>\<open>FindMonthValue\<close>: \<open>month_str\<close> stands for the bytes at the pointer, of which
  \<^verbatim>\<open>memcmp\<close> compares the first three with the first three of the table entry. The
  loop counter is returned as \<^verbatim>\<open>uint8_t\<close>.\<close>

function FindMonthValue_loop :: "string \<Rightarrow> nat \<Rightarrow> nat" where
  "FindMonthValue_loop month_str i =
     (if i < MONTH_IN_YEAR \<and> take 3 month_str \<noteq> take 3 (MONTHS ! i)
      then FindMonthValue_loop month_str (i + 1)
      else i)"
  by pat_completeness auto
termination
  by (relation "measure (\<lambda>(month_str, i). 12 - i)") auto

declare FindMonthValue_loop.simps [simp del]

definition FindMonthValue :: "string \<Rightarrow> u8" where
  "FindMonthValue month_str = of_nat (FindMonthValue_loop month_str 0)"

text \<open>\<^verbatim>\<open>SetDate\<close>: the month is computed before the scan count is looked at. The
  result is \<open>None\<close> when \<^verbatim>\<open>MONTHS[month-1]\<close> would be read outside the table, which
  the check in \<^verbatim>\<open>systime_SetDate\<close> excludes.\<close>

definition SetDate :: "extern \<Rightarrow> string \<Rightarrow> monitor \<Rightarrow> (bool \<times> monitor) option" where
  "SetDate env new_date_str st =
     (let (scan_res, d, month_str, y) = sscanf_date env new_date_str;
          date_temp = \<lparr>year = y, month = FindMonthValue month_str + 1, day = d\<rparr>
      in if scan_res = VALID_DATE_SCAN
         then (case systime_SetDate date_temp (systime_state st) of
                 (True, t') \<Rightarrow>
                   (case sprintf_date date_temp of
                      None \<Rightarrow> None
                    | Some date_str \<Rightarrow>
                        Some (True, UART0_puts [CHR '' '', NL]
                                      (UART0_puts date_str (st\<lparr>systime_state := t'\<rparr>))))
               | (False, t') \<Rightarrow> Some (False, st\<lparr>systime_state := t'\<rparr>))
         else Some (False, st))"

definition DisplayDate :: "monitor \<Rightarrow> monitor option" where
  "DisplayDate st =
     (let date_temp = systime_GetDate (systime_state st) in
      case sprintf_date date_temp of
        None \<Rightarrow> None
      | Some date_str \<Rightarrow> Some (UART0_puts [CHR '' '', NL] (UART0_puts date_str st)))"

text \<open>The time that \<^verbatim>\<open>SetAlarm\<close> prints (lines 299 to 316): the fields of the current
  time are added to the entered ones in 8-bit arithmetic, then each of the three lower
  fields is reduced once, when it is greater than its limit, and the hour is taken
  modulo 24.\<close>

definition SetAlarm_arm_time :: "clock \<Rightarrow> clock \<Rightarrow> clock" where
  "SetAlarm_arm_time clock_temp current_time =
     (let c0 = \<lparr>hour = hour clock_temp + hour current_time,
                minu = minu clock_temp + minu current_time,
                sec = sec clock_temp + sec current_time,
                t_sec = t_sec clock_temp + t_sec current_time\<rparr>;
          c1 = (if t_sec c0 > TSEC_IN_SEC
                then c0\<lparr>t_sec := t_sec c0 - TSEC_IN_SEC, sec := sec c0 + 1\<rparr> else c0);
          c2 = (if sec c1 > SEC_IN_MIN
                then c1\<lparr>sec := sec c1 - SEC_IN_MIN, minu := minu c1 + 1\<rparr> else c1);
          c3 = (if minu c2 > MIN_IN_HOUR
                then c2\<lparr>minu := minu c2 - MIN_IN_HOUR, hour := hour c2 + 1\<rparr> else c2)
      in c3\<lparr>hour := hour c3 mod HOUR_IN_DAY\<rparr>)"

definition SetAlarm :: "extern \<Rightarrow> string \<Rightarrow> monitor \<Rightarrow> bool \<times> monitor" where
  "SetAlarm env alarm_str st =
     (let (scan_res, clock_temp) = sscanf_clock env alarm_str in
      if scan_res = VALID_ALARM_SCAN
      then (let (retval, t') = systime_SetAlarm clock_temp Alarm_cb (systime_state st);
                current_time = systime_GetTime t';
                time_str = sprintf_clock (SetAlarm_arm_time clock_temp current_time)
            in (retval,
                UART0_puts [CHR '' '', NL]
                  (UART0_puts time_str
                     (UART0_puts ''Alarm at '' (st\<lparr>systime_state := t'\<rparr>)))))
      else (False, st))"

definition Alarm_callback :: "monitor \<Rightarrow> monitor" where
  "Alarm_callback st =
     (let st1 = UART0_puts (NL # ''* ALARM * '') (UART0_puts ALARM_BELL st);
          clock_temp = systime_GetTime (systime_state st1)
      in UART0_puts ''> ''
           (UART0_puts ('' * '' @ [NL]) (UART0_puts (sprintf_clock clock_temp) st1)))"

subsection \<open>The edit buffer\<close>

text \<open>Modelled from the spec: \<^verbatim>\<open>enqueuec_s\<close> of the ring buffer (\<^verbatim>\<open>uart.c\<close> is not among
  the sources). The spec has the byte inserted at the cursor "into buffer capped at
  capacity", the cursor advanced, and a refusal reported on overflow: the byte is stored
  at \<open>wr_ptr\<close> and \<open>wr_ptr\<close> advanced when \<open>wr_ptr\<close> is below the capacity, and the
  call returns false with the buffer as it was otherwise.\<close>

definition enqueuec_s :: "char \<Rightarrow> query_buffer \<Rightarrow> bool \<times> query_buffer" where
  "enqueuec_s c q =
     (if unat (wr_ptr q) < length (data q)
      then (True, q\<lparr>data := (data q)[unat (wr_ptr q) := c], wr_ptr := wr_ptr q + 1\<rparr>)
      else (False, q))"

text \<open>\<^verbatim>\<open>toupper\<close> of the C library, in the C locale.\<close>

definition toupper :: "char \<Rightarrow> char" where
  "toupper c =
     (let n = (of_char c :: nat) in if 97 \<le> n \<and> n \<le> 122 then char_of (n - 32) else c)"

text \<open>The loop of case \<^verbatim>\<open>'B'\<close> in \<^verbatim>\<open>CursorCodeCheck\<close>.\<close>

function cursor_to_end :: "monitor \<Rightarrow> monitor" where
  "cursor_to_end st =
     (let q = query_state st in
      if wr_ptr q < entry_ptr q
      then cursor_to_end ((UART0_puts CURSOR_RIGHT st)\<lparr>query_state := q\<lparr>wr_ptr := wr_ptr q + 1\<rparr>\<rparr>)
      else st)"
  by pat_completeness auto
termination
proof (relation "measure (\<lambda>st. unat (entry_ptr (query_state st)) - unat (wr_ptr (query_state st)))")
  fix st :: monitor and q :: query_buffer
  assume q: "q = query_state st" and lt: "wr_ptr q < entry_ptr q"
  from lt have "unat (wr_ptr q) < unat (entry_ptr q)"
    by (simp add: word_less_nat_alt)
  moreover have "unat (entry_ptr q) < 2 ^ 32"
    using unsigned_less [of "entry_ptr q"] by simp
  ultimately have "unat (wr_ptr q + 1) = unat (wr_ptr q) + 1"
    by (simp add: unat_word_ariths)
  with lt q
  show "((UART0_puts CURSOR_RIGHT st)\<lparr>query_state := q\<lparr>wr_ptr := wr_ptr q + 1\<rparr>\<rparr>, st) \<in>
          measure (\<lambda>st. unat (entry_ptr (query_state st)) - unat (wr_ptr (query_state st)))"
    by (simp add: word_less_nat_alt UART0_puts_def)
qed simp

declare cursor_to_end.simps [simp del]

text \<open>\<^verbatim>\<open>CursorCodeCheck\<close>: \<open>rx\<close> is the content of the receive buffer, oldest byte
  first, with the bytes that are still to arrive. The function waits until two bytes are
  there, so with fewer than two it does not return (\<open>None\<close>). It takes the two bytes
  out and looks at the second only.\<close>

definition CursorCodeCheck :: "string \<Rightarrow> monitor \<Rightarrow> (string \<times> monitor) option" where
  "CursorCodeCheck rx st =
     (case rx of
        sqbkrt # code # rx' \<Rightarrow>
          (let q = query_state st in
           Some (rx',
             if code = CHR ''A'' then UART0_puts CURSOR_DOWN st
             else if code = CHR ''B'' then cursor_to_end (UART0_puts CURSOR_UP st)
             else if code = CHR ''C'' then
               (if wr_ptr q < entry_ptr q
                then st\<lparr>query_state := q\<lparr>wr_ptr := wr_ptr q + 1\<rparr>\<rparr>
                else UART0_puts CURSOR_LEFT st)
             else if code = CHR ''D'' then
               (if wr_ptr q > 0
                then st\<lparr>query_state := q\<lparr>wr_ptr := wr_ptr q - 1\<rparr>\<rparr>
                else UART0_puts CURSOR_RIGHT st)
             else st))
      | _ \<Rightarrow> None)"

subsection \<open>Dispatch\<close>

text \<open>The three scanning loops of \<^verbatim>\<open>QueryCheck\<close>: while \<open>i < bound\<close> and the byte at
  \<open>i\<close> satisfies \<open>P\<close>, advance. A read at or beyond the end of the array has no
  defined value: the result is \<open>None\<close>.\<close>

function scan_while :: "(char \<Rightarrow> bool) \<Rightarrow> string \<Rightarrow> nat \<Rightarrow> nat \<Rightarrow> nat option" where
  "scan_while P query_str bound i =
     (if i < bound
      then (if i < length query_str
            then (if P (query_str ! i) then scan_while P query_str bound (i + 1) else Some i)
            else None)
      else Some i)"
  by pat_completeness auto
termination
  by (relation "measure (\<lambda>(P, query_str, bound, i). bound - i)") auto

declare scan_while.simps [simp del]

text \<open>The string that a \<^verbatim>\<open>char*\<close> into the array points to: the bytes up to the first
  NUL.\<close>

definition c_string :: "string \<Rightarrow> nat \<Rightarrow> string" where
  "c_string query_str i = takeWhile (\<lambda>c. c \<noteq> NUL) (drop i query_str)"

text \<open>\<^verbatim>\<open>QueryCheck\<close>, lines 114 to 131: the keyword and the argument are found in the
  array. The first loop runs while \<^verbatim>\<open>i <= length\<close>, the other two while
  \<^verbatim>\<open>i < length\<close>; a NUL is written behind the keyword before the third loop. The result
  is the state with the array as written, the keyword as \<^verbatim>\<open>strcmp\<close> will read it, and
  \<^verbatim>\<open>set_data\<close>: \<open>None\<close> for \<^verbatim>\<open>NULL\<close>, and otherwise the string at the pointer, as
  \<^verbatim>\<open>sscanf\<close> will read it. The entry is not terminated by the program, so that string
  ends at the first NUL that the array happens to hold behind the pointer; when there is
  none, it runs past the end of the array. The whole is \<open>None\<close> when an index or the
  argument string leaves the array.\<close>

definition QueryCheck_scan :: "monitor \<Rightarrow> (monitor \<times> string \<times> string option) option" where
  "QueryCheck_scan st =
     (let query_str = data (query_state st);
          len = unat (entry_ptr (query_state st))
      in case scan_while (\<lambda>c. c = CHR '' '') query_str (len + 1) 0 of
           None \<Rightarrow> None
         | Some k \<Rightarrow>
             (case scan_while (\<lambda>c. c \<noteq> CHR '' '') query_str len k of
                None \<Rightarrow> None
              | Some i \<Rightarrow>
                  if i < length query_str
                  then (let query_str' = query_str[i := NUL];
                            st' = st\<lparr>query_state := (query_state st)\<lparr>data := query_str'\<rparr>\<rparr>
                        in case scan_while (\<lambda>c. c = CHR '' '') query_str' len (i + 1) of
                          None \<Rightarrow> None
                        | Some j \<Rightarrow>
                            if j < len
                            then (if NUL \<in> set (drop j query_str')
                                  then Some (st', c_string query_str' k,
                                             Some (c_string query_str' j))
                                  else None)
                            else Some (st', c_string query_str' k, None))
                  else None))"

text \<open>\<^verbatim>\<open>QueryCheck\<close>, lines 133 to 162: the command is carried out. The result is \<open>None\<close>
  when the scan above is, or when a month name is read outside its table.\<close>

definition QueryCheck :: "extern \<Rightarrow> monitor \<Rightarrow> (bool \<times> monitor) option" where
  "QueryCheck env st =
     (case QueryCheck_scan st of
        None \<Rightarrow> None
      | Some (st', keyword, set_data) \<Rightarrow>
          if keyword = TIME_QUERY then
            (case set_data of
               Some s \<Rightarrow> Some (SetTime env s st')
             | None \<Rightarrow> Some (True, DisplayTime st'))
          else if keyword = DATE_QUERY then
            (case set_data of
               Some s \<Rightarrow> SetDate env s st'
             | None \<Rightarrow> map_option (Pair True) (DisplayDate st'))
          else if keyword = ALARM_QUERY then
            (case set_data of
               Some s \<Rightarrow> Some (SetAlarm env s st')
             | None \<Rightarrow>
                 Some (True, UART0_puts (''Alarm has been cleared'' @ [NL])
                               (st'\<lparr>systime_state := systime_ClearAlarm (systime_state st')\<rparr>)))
          else Some (False, st'))"

text \<open>\<^verbatim>\<open>QueryHandler_Update\<close>: \<open>rx\<close> is the receive buffer as in \<^verbatim>\<open>CursorCodeCheck\<close>;
  \<^verbatim>\<open>dequeuec\<close> takes its first byte. The main loop calls the function only when a byte is
  there; with none the result is \<open>None\<close>.\<close>

definition QueryHandler_Update :: "extern \<Rightarrow> string \<Rightarrow> monitor \<Rightarrow> (string \<times> monitor) option" where
  "QueryHandler_Update env rx st =
     (case rx of
        [] \<Rightarrow> None
      | data_c # rx' \<Rightarrow>
          (let q = query_state st in
           if data_c = CHR 0x08 \<or> data_c = CHR 0x7F then
             Some (rx',
               if wr_ptr q > 0
               then st\<lparr>query_state := q\<lparr>wr_ptr := wr_ptr q - 1, entry_ptr := entry_ptr q - 1\<rparr>\<rparr>
               else UART0_puts '' '' st)
           else if data_c = CHR 0x0D \<or> data_c = CHR 0x0A then
             (case QueryCheck env st of
                None \<Rightarrow> None
              | Some (valid, st1) \<Rightarrow>
                  (let st2 = (if \<not> valid then UART0_puts (''? '' @ [NL]) st1 else st1);
                       st3 = st2\<lparr>query_state := (query_state st2)\<lparr>entry_ptr := 0, wr_ptr := 0\<rparr>\<rparr>
                   in Some (rx', UART0_puts ''> '' st3)))
           else if data_c = CHR 0x1B then CursorCodeCheck rx' st
           else
             (let (ok, q1) = enqueuec_s (toupper data_c) q;
                  st1 = (if \<not> ok then UART0_puts [CHR 0x08] st else st);
                  q2 = (if entry_ptr q1 < wr_ptr q1 then q1\<lparr>entry_ptr := wr_ptr q1\<rparr> else q1)
              in Some (rx', st1\<lparr>query_state := q2\<rparr>))))"

subsection \<open>The edit-buffer invariant\<close>

text \<open>The cursor is at most the entry length, which is at most the capacity.\<close>

definition query_inv :: "query_buffer \<Rightarrow> bool" where
  "query_inv q \<longleftrightarrow>
     unat (wr_ptr q) \<le> unat (entry_ptr q) \<and> unat (entry_ptr q) \<le> length (data q)"

subsection \<open>Instances for the concrete runs\<close>

text \<open>A C library whose two \<^verbatim>\<open>sscanf\<close> calls give the same results for every string.\<close>

definition extern_fixed :: "int \<times> clock \<Rightarrow> int \<times> u8 \<times> string \<times> u16 \<Rightarrow> extern" where
  "extern_fixed rc rd = \<lparr>sscanf_clock = (\<lambda>s. rc), sscanf_date = (\<lambda>s. rd)\<rparr>"

text \<open>A state of the program: the time engine as \<^verbatim>\<open>systime_init\<close> leaves it, with the tick
  counter at \<open>ticks\<close>; the edit buffer with the array \<open>buf\<close>, the cursor \<open>wr\<close> and
  the entry length \<open>entry\<close>; nothing written to the terminal.\<close>

definition monitor_at :: "u32 \<Rightarrow> string \<Rightarrow> u32 \<Rightarrow> u32 \<Rightarrow> monitor" where
  "monitor_at ticks buf wr entry =
     \<lparr>systime_state = systime_init\<lparr>counter_value := ticks\<rparr>,
      query_state = \<lparr>data = buf, wr_ptr = wr, entry_ptr = entry\<rparr>,
      uart_tx = []\<rparr>"

section \<open>Properties of the time engine\<close>

subsection \<open>Words and naturals\<close>

lemma div_u32:
  "n < 2 ^ 32 \<Longrightarrow> k < 2 ^ 32 \<Longrightarrow> (of_nat n :: u32) div of_nat k = of_nat (n div k)"
  by (simp add: word_arith_nat_div unat_of_nat)

lemma ucast_u32_u8_of_nat: "n < 256 \<Longrightarrow> (ucast (of_nat n :: u32) :: u8) = of_nat n"
  by (simp add: word_unat_eq_iff unsigned_ucast_eq unat_of_nat take_bit_eq_mod)

lemma ucast_u8_u32_of_nat: "n < 256 \<Longrightarrow> (ucast (of_nat n :: u8) :: u32) = of_nat n"
  by (simp add: word_unat_eq_iff unsigned_ucast_eq unat_of_nat take_bit_eq_mod)

lemma month_cases:
  assumes "1 \<le> (m::u8)" "m \<le> 12"
  shows "m \<in> {1, 2, 3, 4, 5, 6, 7, 8, 9, 10, 11, 12}"
  using assms by (simp add: word_le_nat_alt word_unat_eq_iff) arith

subsection \<open>Clock and tick count\<close>

lemma ConvertClock_of_nat:
  "systime_ConvertClock c =
     of_nat (unat (t_sec c) + unat (sec c) * 10 + unat (minu c) * 600 + unat (hour c) * 36000)"
  unfolding systime_ConvertClock_def by simp

lemma ConvertTickCounter_of_nat:
  assumes "h < 24" "m < 60" "s < 60" "t < 10"
  shows "systime_ConvertTickCounter (of_nat (t + s * 10 + m * 600 + h * 36000)) =
           \<lparr>hour = of_nat h, minu = of_nat m, sec = of_nat s, t_sec = of_nat t\<rparr>"
proof -
  let ?n = "t + s * 10 + m * 600 + h * 36000"
  have n: "?n < 2 ^ 32" using assms by simp
  have d1: "(of_nat ?n :: u32) div 36000 = of_nat h"
    using div_u32 [OF n, of 36000] assms by simp
  have h8: "(ucast (of_nat h :: u32) :: u8) = of_nat h"
    using assms by (simp add: ucast_u32_u8_of_nat)
  have h32: "(ucast (of_nat h :: u8) :: u32) = of_nat h"
    using assms by (simp add: ucast_u8_u32_of_nat)
  have r1: "(of_nat ?n :: u32) - 36000 * of_nat h = of_nat (t + s * 10 + m * 600)"
    by simp
  have d2: "(of_nat (t + s * 10 + m * 600) :: u32) div 600 = of_nat m"
    using div_u32 [of "t + s * 10 + m * 600" 600] assms by simp
  have m8: "(ucast (of_nat m :: u32) :: u8) = of_nat m"
    using assms by (simp add: ucast_u32_u8_of_nat)
  have m32: "(ucast (of_nat m :: u8) :: u32) = of_nat m"
    using assms by (simp add: ucast_u8_u32_of_nat)
  have r2: "(of_nat (t + s * 10 + m * 600) :: u32) - 600 * of_nat m = of_nat (t + s * 10)"
    by simp
  have d3: "(of_nat (t + s * 10) :: u32) div 10 = of_nat s"
    using div_u32 [of "t + s * 10" 10] assms by simp
  have s8: "(ucast (of_nat s :: u32) :: u8) = of_nat s"
    using assms by (simp add: ucast_u32_u8_of_nat)
  have s32: "(ucast (of_nat s :: u8) :: u32) = of_nat s"
    using assms by (simp add: ucast_u8_u32_of_nat)
  have r3: "(of_nat (t + s * 10) :: u32) - 10 * of_nat s = of_nat t"
    by simp
  have t8: "(ucast (of_nat t :: u32) :: u8) = of_nat t"
    using assms by (simp add: ucast_u32_u8_of_nat)
  show ?thesis
    unfolding systime_ConvertTickCounter_def Let_def d1 h8 h32 r1 d2 m8 m32 r2 d3 s8 s32 r3 t8
    by (rule refl)
qed

lemma ConvertTickCounter_ConvertClock:
  assumes "unat (hour c) < 24" "unat (minu c) < 60" "unat (sec c) < 60" "unat (t_sec c) < 10"
  shows "systime_ConvertTickCounter (systime_ConvertClock c) = c"
  unfolding ConvertClock_of_nat ConvertTickCounter_of_nat [OF assms]
  by simp

text \<open>C1. For every valid clock value (hour in 0..23, minute in 0..59, second in 0..59,
  tenth of a second in 0..9), converting it to a tick count with
  \<^verbatim>\<open>systime_ConvertClock\<close> and converting that count back with
  \<^verbatim>\<open>systime_ConvertTickCounter\<close> gives the original clock, field by field.\<close>

theorem C1_clock_roundtrip:
  assumes "unat (hour c) \<le> 23" "unat (minu c) \<le> 59" "unat (sec c) \<le> 59"
    and "unat (t_sec c) \<le> 9"
  shows "systime_ConvertTickCounter (systime_ConvertClock c) = c"
  using assms by (intro ConvertTickCounter_ConvertClock) simp_all

theorem C1_clock_roundtrip_witness:
  "unat (23 :: u8) \<le> 23 \<and> unat (59 :: u8) \<le> 59 \<and> unat (9 :: u8) \<le> 9 \<and>
   systime_ConvertClock \<lparr>hour = 23, minu = 59, sec = 59, t_sec = 9\<rparr> = 863999 \<and>
   systime_ConvertTickCounter
     (systime_ConvertClock \<lparr>hour = 23, minu = 59, sec = 59, t_sec = 9\<rparr>) =
   \<lparr>hour = 23, minu = 59, sec = 59, t_sec = 9\<rparr>"
  using C1_clock_roundtrip [of "\<lparr>hour = 23, minu = 59, sec = 59, t_sec = 9\<rparr>"]
  by (simp add: systime_ConvertClock_def)

subsection \<open>Month lengths\<close>

lemma DaysInMonth_in_range:
  assumes "0 < (m::u8)" "m \<le> 12"
  shows "\<exists>n. DaysInMonth (m - 1) y = Some n"
proof -
  have "1 \<le> m" using assms(1) by (simp add: word_le_nat_alt word_less_nat_alt)
  from month_cases [OF this assms(2)] show ?thesis
    by (auto simp: DaysInMonth_def)
qed

lemma DaysInMonth_bounds:
  assumes "DaysInMonth m y = Some n"
  shows "28 \<le> n \<and> n \<le> 31"
proof -
  have "unat m < 12" using assms by (simp add: DaysInMonth_def split: if_splits)
  then have "unat m \<in> {0, 1, 2, 3, 4, 5, 6, 7, 8, 9, 10, 11}" by simp arith
  then show ?thesis using assms
    by (auto simp: DaysInMonth_def MONTH_DAYS_def split: if_splits)
qed

lemma unat_day_Suc:
  assumes "(d::u8) \<le> n" "n \<le> 31"
  shows "unat (d + 1) = unat d + 1"
proof -
  have "unat d \<le> 31" using assms by (simp add: word_le_nat_alt)
  then show ?thesis by (simp add: unat_word_ariths)
qed

lemma day_step_stay:
  assumes "1 \<le> (d::u8)" "d \<le> n" "n \<le> 31" "\<not> d + 1 > n"
  shows "1 \<le> d + 1 \<and> d + 1 \<le> n"
  using assms unat_day_Suc [OF assms(2,3)]
  by (simp add: word_le_nat_alt word_less_nat_alt)

lemma IncDate_callback_inv:
  assumes "date_inv (date time)"
  shows "\<exists>t'. systime_IncDate_callback time = Some t' \<and> date_inv (date t')"
proof -
  let ?d = "date time"
  from assms obtain n where m1: "1 \<le> month ?d" and m12: "month ?d \<le> 12"
    and d1: "1 \<le> day ?d" and n: "DaysInMonth (month ?d - 1) (year ?d) = Some n"
    and dn: "day ?d \<le> n"
    by (auto simp: date_inv_def split: option.splits)
  from DaysInMonth_bounds [OF n] have n31: "n \<le> 31" by simp
  show ?thesis
  proof (cases "day ?d + 1 > n")
    case False
    from day_step_stay [OF d1 dn n31 False] show ?thesis
      using n m1 m12 False by (simp add: systime_IncDate_callback_def Let_def date_inv_def)
  next
    case over: True
    show ?thesis
    proof (cases "month ?d = 12")
      case True
      then show ?thesis using n over
        by (simp add: systime_IncDate_callback_def Let_def date_inv_def DaysInMonth_def
            MONTH_DAYS_def)
    next
      case False
      with month_cases [OF m1 m12]
      have "month ?d \<in> {1, 2, 3, 4, 5, 6, 7, 8, 9, 10, 11}" by simp
      then show ?thesis using n over
        by (auto simp: systime_IncDate_callback_def Let_def date_inv_def DaysInMonth_def
            MONTH_DAYS_def)
    qed
  qed
qed

lemma SetDate_accepts_iff:
  "fst (systime_SetDate d time) \<longleftrightarrow> unat (year d) < 9999 \<and> date_inv d"
  by (auto simp: systime_SetDate_def date_inv_def word_less_nat_alt word_le_nat_alt
      split: option.splits)

lemma SetDate_result:
  "systime_SetDate d time =
     (if fst (systime_SetDate d time) then (True, time\<lparr>date := d\<rparr>) else (False, time))"
  by (simp add: systime_SetDate_def)

text \<open>C2. \<^verbatim>\<open>systime_SetTime\<close> returns success exactly when every field is within its
  range (hour below 24, minute below 60, second below 60, tenth of a second below 10). On
  any out-of-range field it returns failure and leaves the state, so the tick counter and
  the time read back from it, as they were. Setting 24:00:00.0 fails with the state
  unchanged.\<close>

theorem C2_SetTime_validation:
  "(fst (systime_SetTime c time) \<longleftrightarrow>
      unat (hour c) < 24 \<and> unat (minu c) < 60 \<and> unat (sec c) < 60 \<and> unat (t_sec c) < 10) \<and>
   (\<not> fst (systime_SetTime c time) \<longrightarrow>
      snd (systime_SetTime c time) = time \<and>
      counter_value (snd (systime_SetTime c time)) = counter_value time \<and>
      systime_GetTime (snd (systime_SetTime c time)) = systime_GetTime time) \<and>
   systime_SetTime \<lparr>hour = 24, minu = 0, sec = 0, t_sec = 0\<rparr> time = (False, time)"
  by (auto simp: systime_SetTime_def word_less_nat_alt)

theorem C2_SetTime_validation_witness:
  "\<not> fst (systime_SetTime \<lparr>hour = 23, minu = 60, sec = 0, t_sec = 0\<rparr> systime_init) \<and>
   snd (systime_SetTime \<lparr>hour = 23, minu = 60, sec = 0, t_sec = 0\<rparr> systime_init) = systime_init \<and>
   systime_SetTime \<lparr>hour = 24, minu = 0, sec = 0, t_sec = 0\<rparr> systime_init = (False, systime_init) \<and>
   fst (systime_SetTime \<lparr>hour = 23, minu = 59, sec = 59, t_sec = 9\<rparr> systime_init)"
  using C2_SetTime_validation [of "\<lparr>hour = 23, minu = 60, sec = 0, t_sec = 0\<rparr>" systime_init]
    C2_SetTime_validation [of "\<lparr>hour = 23, minu = 59, sec = 59, t_sec = 9\<rparr>" systime_init]
  by simp

text \<open>C3. \<^verbatim>\<open>systime_SetDate\<close> returns success exactly when the month is in 1..12, the
  day is in 1..the length of that month in that year, and the year is below 9999. On
  success the stored date is replaced by the new one as a whole; on failure the state is
  unchanged. 31-FEB-2021 is rejected with the state unchanged, and 29-FEB-2020 is
  accepted.\<close>

theorem C3_SetDate_validation:
  "(fst (systime_SetDate d time) \<longleftrightarrow>
      1 \<le> unat (month d) \<and> unat (month d) \<le> 12 \<and>
      1 \<le> unat (day d) \<and>
      (\<exists>n. DaysInMonth (month d - 1) (year d) = Some n \<and> unat (day d) \<le> unat n) \<and>
      unat (year d) < 9999) \<and>
   (fst (systime_SetDate d time) \<longrightarrow> snd (systime_SetDate d time) = time\<lparr>date := d\<rparr>) \<and>
   (\<not> fst (systime_SetDate d time) \<longrightarrow> snd (systime_SetDate d time) = time) \<and>
   systime_SetDate \<lparr>year = 2021, month = 2, day = 31\<rparr> time = (False, time) \<and>
   systime_SetDate \<lparr>year = 2020, month = 2, day = 29\<rparr> time =
     (True, time\<lparr>date := \<lparr>year = 2020, month = 2, day = 29\<rparr>\<rparr>)"
proof -
  have "fst (systime_SetDate d time) \<longleftrightarrow>
      1 \<le> unat (month d) \<and> unat (month d) \<le> 12 \<and>
      1 \<le> unat (day d) \<and>
      (\<exists>n. DaysInMonth (month d - 1) (year d) = Some n \<and> unat (day d) \<le> unat n) \<and>
      unat (year d) < 9999"
    unfolding SetDate_accepts_iff date_inv_def
    by (auto simp: word_le_nat_alt split: option.splits)
  moreover have "fst (systime_SetDate d time) \<longrightarrow> snd (systime_SetDate d time) = time\<lparr>date := d\<rparr>"
    "\<not> fst (systime_SetDate d time) \<longrightarrow> snd (systime_SetDate d time) = time"
    by (simp_all add: systime_SetDate_def)
  moreover have "systime_SetDate \<lparr>year = 2021, month = 2, day = 31\<rparr> time = (False, time)"
    by (simp add: systime_SetDate_def DaysInMonth_def MONTH_DAYS_def IS_LEAP_YR_def)
  moreover have "systime_SetDate \<lparr>year = 2020, month = 2, day = 29\<rparr> time =
     (True, time\<lparr>date := \<lparr>year = 2020, month = 2, day = 29\<rparr>\<rparr>)"
    by (simp add: systime_SetDate_def DaysInMonth_def MONTH_DAYS_def IS_LEAP_YR_def)
  ultimately show ?thesis by blast
qed

theorem C3_SetDate_validation_witness:
  "fst (systime_SetDate \<lparr>year = 2024, month = 12, day = 31\<rparr> systime_init) \<and>
   date (snd (systime_SetDate \<lparr>year = 2024, month = 12, day = 31\<rparr> systime_init)) =
     \<lparr>year = 2024, month = 12, day = 31\<rparr> \<and>
   \<not> fst (systime_SetDate \<lparr>year = 9999, month = 1, day = 1\<rparr> systime_init) \<and>
   snd (systime_SetDate \<lparr>year = 9999, month = 1, day = 1\<rparr> systime_init) = systime_init \<and>
   systime_SetDate \<lparr>year = 2021, month = 2, day = 31\<rparr> systime_init = (False, systime_init)"
  using C3_SetDate_validation [of "\<lparr>year = 2024, month = 12, day = 31\<rparr>" systime_init]
    C3_SetDate_validation [of "\<lparr>year = 9999, month = 1, day = 1\<rparr>" systime_init]
  by (simp add: DaysInMonth_def MONTH_DAYS_def IS_LEAP_YR_def)

text \<open>C4. For every year, \<^verbatim>\<open>DaysInMonth\<close> applied to February (index 1) returns 29 when
  the year is divisible by 4 and either divisible by 400 or not divisible by 100, and 28
  otherwise. Every other month has its usual length, whatever the year.\<close>

theorem C4_DaysInMonth_leap_rule:
  "DaysInMonth 1 y =
     Some (if 4 dvd unat y \<and> (400 dvd unat y \<or> \<not> 100 dvd unat y) then 29 else 28) \<and>
   DaysInMonth 0 y = Some 31 \<and> DaysInMonth 2 y = Some 31 \<and> DaysInMonth 3 y = Some 30 \<and>
   DaysInMonth 4 y = Some 31 \<and> DaysInMonth 5 y = Some 30 \<and> DaysInMonth 6 y = Some 31 \<and>
   DaysInMonth 7 y = Some 31 \<and> DaysInMonth 8 y = Some 30 \<and> DaysInMonth 9 y = Some 31 \<and>
   DaysInMonth 10 y = Some 30 \<and> DaysInMonth 11 y = Some 31"
  by (simp add: DaysInMonth_def MONTH_DAYS_def IS_LEAP_YR_def dvd_eq_mod_eq_0)

theorem C4_DaysInMonth_leap_rule_witness:
  "DaysInMonth 1 2020 = Some 29 \<and> DaysInMonth 1 2021 = Some 28 \<and>
   DaysInMonth 1 1900 = Some 28 \<and> DaysInMonth 1 2000 = Some 29"
  using C4_DaysInMonth_leap_rule [of 2020] C4_DaysInMonth_leap_rule [of 2021]
    C4_DaysInMonth_leap_rule [of 1900] C4_DaysInMonth_leap_rule [of 2000]
  by simp

text \<open>C5. The date invariant (month in 1..12, day in 1..the month's length in that year)
  is preserved by both operations that write the date. From a date that satisfies it, the
  day-rollover callback returns, and the date it leaves satisfies it.
  \<^verbatim>\<open>systime_SetDate\<close> stores a date only if that date satisfies the invariant, so the
  stored date satisfies it after the call whenever it did before.\<close>

theorem C5_date_invariant_preserved:
  "(date_inv (date time) \<longrightarrow>
      (\<exists>t'. systime_IncDate_callback time = Some t' \<and> date_inv (date t'))) \<and>
   (fst (systime_SetDate d time) \<longrightarrow>
      date (snd (systime_SetDate d time)) = d \<and> date_inv d) \<and>
   (date_inv (date time) \<longrightarrow> date_inv (date (snd (systime_SetDate d time))))"
  using IncDate_callback_inv [of time] SetDate_accepts_iff [of d time]
  by (auto simp: systime_SetDate_def)

theorem C5_date_invariant_preserved_witness:
  "date_inv \<lparr>year = 2023, month = 12, day = 31\<rparr> \<and>
   (\<exists>t'. systime_IncDate_callback
           (systime_init\<lparr>date := \<lparr>year = 2023, month = 12, day = 31\<rparr>\<rparr>) = Some t' \<and>
         date_inv (date t')) \<and>
   fst (systime_SetDate \<lparr>year = 2024, month = 2, day = 29\<rparr>
          (systime_init\<lparr>date := \<lparr>year = 2023, month = 12, day = 31\<rparr>\<rparr>)) \<and>
   date_inv \<lparr>year = 2024, month = 2, day = 29\<rparr>"
  using C5_date_invariant_preserved
    [of "systime_init\<lparr>date := \<lparr>year = 2023, month = 12, day = 31\<rparr>\<rparr>"
        "\<lparr>year = 2024, month = 2, day = 29\<rparr>"]
  by (simp add: date_inv_def systime_SetDate_def DaysInMonth_def MONTH_DAYS_def IS_LEAP_YR_def)

section \<open>Properties of the command interpreter\<close>

subsection \<open>Month names\<close>

lemma FindMonthValue_loop_no_match:
  assumes "\<forall>j < 12. take 3 month_str \<noteq> take 3 (MONTHS ! j)" "i \<le> 12"
  shows "FindMonthValue_loop month_str i = 12"
  using assms
proof (induction month_str i rule: FindMonthValue_loop.induct)
  case (1 month_str i)
  show ?case
  proof (cases "i < 12")
    case True
    with 1 show ?thesis by (subst FindMonthValue_loop.simps) simp
  next
    case False
    with 1 show ?thesis by (subst FindMonthValue_loop.simps) simp
  qed
qed

lemma MONTHS_nth_take:
  assumes "j < 12"
  shows "take 3 (MONTHS ! j) \<in> set MONTHS"
proof -
  from assms have "j \<in> {0, 1, 2, 3, 4, 5, 6, 7, 8, 9, 10, 11}" by simp arith
  then show ?thesis by (auto simp: MONTHS_def)
qed

lemma FindMonthValue_no_match:
  assumes "take 3 month_str \<notin> set MONTHS"
  shows "FindMonthValue month_str = 12"
proof -
  have "\<forall>j < 12. take 3 month_str \<noteq> take 3 (MONTHS ! j)"
    using assms MONTHS_nth_take by metis
  then show ?thesis
    by (simp add: FindMonthValue_def FindMonthValue_loop_no_match)
qed

subsection \<open>Cursor arithmetic\<close>

lemma unat_Suc_lt:
  assumes "(x::u32) < y"
  shows "unat (x + 1) = unat x + 1"
proof -
  from assms have "unat x < unat y" by (simp add: word_less_nat_alt)
  moreover have "unat y < 2 ^ 32" using unsigned_less [of y] by simp
  ultimately show ?thesis by (simp add: unat_word_ariths)
qed

lemma unat_pred_gt0:
  assumes "0 < (x::u32)"
  shows "unat (x - 1) = unat x - 1"
  using assms by (simp add: unat_minus_one word_neq_0_conv)

lemma unat_Suc_le: "unat ((x::u32) + 1) \<le> unat x + 1"
  by (simp add: unat_word_ariths)

lemma cursor_to_end_query:
  assumes "query_inv (query_state st)"
  shows "query_inv (query_state (cursor_to_end st)) \<and>
         data (query_state (cursor_to_end st)) = data (query_state st) \<and>
         entry_ptr (query_state (cursor_to_end st)) = entry_ptr (query_state st) \<and>
         wr_ptr (query_state (cursor_to_end st)) = entry_ptr (query_state st)"
  using assms
proof (induction st rule: cursor_to_end.induct)
  case (1 st)
  let ?q = "query_state st"
  show ?case
  proof (cases "wr_ptr ?q < entry_ptr ?q")
    case True
    let ?st' = "(UART0_puts CURSOR_RIGHT st)\<lparr>query_state := ?q\<lparr>wr_ptr := wr_ptr ?q + 1\<rparr>\<rparr>"
    from True "1.prems" have "query_inv (query_state ?st')"
      by (simp add: query_inv_def unat_Suc_lt word_less_nat_alt)
    from "1.IH" [OF refl True this] True show ?thesis
      by (subst (1 2 3 4) cursor_to_end.simps) (simp add: Let_def)
  next
    case False
    with "1.prems" have "wr_ptr ?q = entry_ptr ?q"
      by (simp add: query_inv_def word_less_nat_alt word_unat_eq_iff)
    with False "1.prems" show ?thesis
      by (subst (1 2 3 4) cursor_to_end.simps) (simp add: Let_def)
  qed
qed

lemma CursorCodeCheck_inv:
  assumes "query_inv (query_state st)" "CursorCodeCheck rx st = Some (rx', st')"
  shows "query_inv (query_state st') \<and>
         length (data (query_state st')) = length (data (query_state st))"
proof -
  from assms(2) obtain sqbkrt code where rx: "rx = sqbkrt # code # rx'"
    by (auto simp: CursorCodeCheck_def Let_def split: list.splits)
  have up: "query_inv (query_state (UART0_puts CURSOR_UP st))"
    using assms(1) by (simp add: UART0_puts_def)
  from cursor_to_end_query [OF up] assms show ?thesis
    unfolding rx
    by (auto simp: CursorCodeCheck_def Let_def UART0_puts_def query_inv_def unat_Suc_lt
        unat_pred_gt0 word_less_nat_alt split: if_splits)
qed

subsection \<open>The commands leave the edit buffer alone\<close>

lemma SetTime_query: "query_state (snd (SetTime env s st)) = query_state st"
  by (simp add: SetTime_def UART0_puts_def split: prod.splits bool.splits)

lemma SetAlarm_query: "query_state (snd (SetAlarm env s st)) = query_state st"
  by (simp add: SetAlarm_def UART0_puts_def Let_def split: prod.splits)

lemma SetDate_query:
  "SetDate env s st = Some (v, st') \<Longrightarrow> query_state st' = query_state st"
  by (auto simp: SetDate_def UART0_puts_def Let_def
      split: prod.splits bool.splits option.splits if_splits)

lemma DisplayDate_query:
  "DisplayDate st = Some st' \<Longrightarrow> query_state st' = query_state st"
  by (auto simp: DisplayDate_def UART0_puts_def Let_def split: option.splits)

lemma DisplayTime_query: "query_state (DisplayTime st) = query_state st"
  by (simp add: DisplayTime_def UART0_puts_def Let_def)

lemma QueryCheck_scan_query:
  assumes "QueryCheck_scan st = Some (st', keyword, set_data)"
  shows "length (data (query_state st')) = length (data (query_state st)) \<and>
         wr_ptr (query_state st') = wr_ptr (query_state st) \<and>
         entry_ptr (query_state st') = entry_ptr (query_state st)"
  using assms unfolding QueryCheck_scan_def Let_def
  by (auto split: option.splits if_splits)

lemma QueryCheck_dispatch_query:
  assumes "QueryCheck env st = Some (v, st')"
  obtains st1 keyword set_data where "QueryCheck_scan st = Some (st1, keyword, set_data)"
    and "query_state st' = query_state st1"
proof -
  from assms obtain st1 keyword set_data where
    scan: "QueryCheck_scan st = Some (st1, keyword, set_data)"
    by (auto simp: QueryCheck_def split: option.splits)
  have "query_state st' = query_state st1"
  proof (cases set_data)
    case None
    with assms scan show ?thesis
      using DisplayDate_query [of st1 st'] DisplayTime_query [of st1]
      by (auto simp: QueryCheck_def UART0_puts_def split: if_splits)
  next
    case (Some s)
    with assms scan show ?thesis
      using SetTime_query [of env s st1] SetAlarm_query [of env s st1]
        SetDate_query [of env s st1 v st']
      by (auto simp: QueryCheck_def split: if_splits dest: arg_cong [where f = snd])
  qed
  with scan that show ?thesis by blast
qed

lemma QueryCheck_query:
  assumes "QueryCheck env st = Some (v, st')"
  shows "length (data (query_state st')) = length (data (query_state st)) \<and>
         wr_ptr (query_state st') = wr_ptr (query_state st) \<and>
         entry_ptr (query_state st') = entry_ptr (query_state st)"
  using QueryCheck_dispatch_query [OF assms] QueryCheck_scan_query by metis

subsection \<open>One byte of input\<close>

lemma enqueuec_s_inv:
  assumes "query_inv q" "enqueuec_s c q = (ok, q1)"
    and "q2 = (if entry_ptr q1 < wr_ptr q1 then q1\<lparr>entry_ptr := wr_ptr q1\<rparr> else q1)"
  shows "query_inv q2 \<and> length (data q2) = length (data q)"
proof (cases "unat (wr_ptr q) < length (data q)")
  case True
  then have q1: "q1 = q\<lparr>data := (data q)[unat (wr_ptr q) := c], wr_ptr := wr_ptr q + 1\<rparr>"
    using assms(2) by (simp add: enqueuec_s_def)
  have le: "unat (wr_ptr q + 1) \<le> length (data q)"
    using unat_Suc_le [of "wr_ptr q"] True by simp
  show ?thesis
    using assms(1) le unfolding assms(3) q1
    by (simp add: query_inv_def word_less_nat_alt)
next
  case False
  then have "q1 = q" using assms(2) by (simp add: enqueuec_s_def)
  with assms(1) show ?thesis unfolding assms(3)
    by (simp add: query_inv_def word_less_nat_alt)
qed

lemma QueryHandler_Update_inv:
  assumes inv: "query_inv (query_state st)"
    and upd: "QueryHandler_Update env rx st = Some (rx', st')"
  shows "query_inv (query_state st') \<and>
         length (data (query_state st')) = length (data (query_state st))"
proof -
  from upd obtain data_c rest where rx: "rx = data_c # rest"
    by (cases rx) (simp_all add: QueryHandler_Update_def)
  let ?q = "query_state st"
  consider (erase) "data_c = CHR 0x08 \<or> data_c = CHR 0x7F"
    | (commit) "data_c \<noteq> CHR 0x08" "data_c \<noteq> CHR 0x7F" "data_c = CHR 0x0D \<or> data_c = CHR 0x0A"
    | (escape) "data_c \<noteq> CHR 0x08" "data_c \<noteq> CHR 0x7F" "data_c \<noteq> CHR 0x0D" "data_c \<noteq> CHR 0x0A"
        "data_c = CHR 0x1B"
    | (insert) "data_c \<noteq> CHR 0x08" "data_c \<noteq> CHR 0x7F" "data_c \<noteq> CHR 0x0D" "data_c \<noteq> CHR 0x0A"
        "data_c \<noteq> CHR 0x1B"
    by blast
  then show ?thesis
  proof cases
    case erase
    show ?thesis
    proof (cases "wr_ptr ?q > 0")
      case True
      with inv have "0 < entry_ptr ?q"
        by (simp add: query_inv_def word_less_nat_alt)
      with True inv upd erase show ?thesis
        unfolding rx
        by (auto simp: QueryHandler_Update_def Let_def query_inv_def unat_pred_gt0)
    next
      case False
      with inv upd erase show ?thesis
        unfolding rx
        by (auto simp: QueryHandler_Update_def Let_def UART0_puts_def)
    qed
  next
    case commit
    with upd obtain valid st1 where qc: "QueryCheck env st = Some (valid, st1)"
      and st': "st' = UART0_puts ''> ''
         ((if \<not> valid then UART0_puts (''? '' @ [NL]) st1 else st1)
            \<lparr>query_state := (query_state (if \<not> valid then UART0_puts (''? '' @ [NL]) st1 else st1))
               \<lparr>entry_ptr := 0, wr_ptr := 0\<rparr>\<rparr>)"
      unfolding rx
      by (auto simp: QueryHandler_Update_def Let_def split: option.splits)
    from QueryCheck_query [OF qc] show ?thesis
      unfolding st' by (simp add: UART0_puts_def query_inv_def)
  next
    case escape
    with upd have "CursorCodeCheck rest st = Some (rx', st')"
      unfolding rx by (simp add: QueryHandler_Update_def Let_def)
    from CursorCodeCheck_inv [OF inv this] show ?thesis .
  next
    case insert
    obtain ok q1 where enq: "enqueuec_s (toupper data_c) ?q = (ok, q1)"
      by (cases "enqueuec_s (toupper data_c) ?q")
    let ?q2 = "if entry_ptr q1 < wr_ptr q1 then q1\<lparr>entry_ptr := wr_ptr q1\<rparr> else q1"
    from upd insert enq have "query_state st' = ?q2"
      unfolding rx
      by (auto simp: QueryHandler_Update_def Let_def UART0_puts_def)
    with enqueuec_s_inv [OF inv enq refl] show ?thesis by simp
  qed
qed

lemma QueryHandler_Update_returns:
  assumes "rx = data_c # rest"
    and "data_c = CHR 0x1B \<longrightarrow> 2 \<le> length rest"
    and "data_c = CHR 0x0D \<or> data_c = CHR 0x0A \<longrightarrow> QueryCheck env st \<noteq> None"
  shows "\<exists>rx' st'. QueryHandler_Update env rx st = Some (rx', st')"
proof -
  consider (erase) "data_c = CHR 0x08 \<or> data_c = CHR 0x7F"
    | (commit) "data_c \<noteq> CHR 0x08" "data_c \<noteq> CHR 0x7F" "data_c = CHR 0x0D \<or> data_c = CHR 0x0A"
    | (escape) "data_c \<noteq> CHR 0x08" "data_c \<noteq> CHR 0x7F" "data_c \<noteq> CHR 0x0D" "data_c \<noteq> CHR 0x0A"
        "data_c = CHR 0x1B"
    | (insert) "data_c \<noteq> CHR 0x08" "data_c \<noteq> CHR 0x7F" "data_c \<noteq> CHR 0x0D" "data_c \<noteq> CHR 0x0A"
        "data_c \<noteq> CHR 0x1B"
    by blast
  then show ?thesis
  proof cases
    case erase
    then show ?thesis unfolding assms(1)
      by (auto simp: QueryHandler_Update_def Let_def)
  next
    case commit
    with assms(3) obtain valid st1 where "QueryCheck env st = Some (valid, st1)" by auto
    with commit show ?thesis unfolding assms(1)
      by (auto simp: QueryHandler_Update_def Let_def)
  next
    case escape
    with assms(2) obtain a b r where "rest = a # b # r"
      by (cases rest; cases "tl rest") auto
    with escape show ?thesis unfolding assms(1)
      by (simp add: QueryHandler_Update_def CursorCodeCheck_def Let_def)
  next
    case insert
    then show ?thesis unfolding assms(1)
      by (simp add: QueryHandler_Update_def Let_def split: prod.splits)
  qed
qed

subsection \<open>When the dispatch returns\<close>

lemma scan_while_returns:
  assumes "bound \<le> length query_str"
  shows "\<exists>j. scan_while P query_str bound i = Some j \<and> i \<le> j \<and> j \<le> max i bound"
  using assms
proof (induction P query_str bound i rule: scan_while.induct)
  case (1 P query_str bound i)
  show ?case
  proof (cases "i < bound \<and> P (query_str ! i)")
    case True
    with 1 obtain j where "scan_while P query_str bound (i + 1) = Some j"
      "i + 1 \<le> j" "j \<le> max (i + 1) bound" by fastforce
    with True "1.prems" show ?thesis
      by (subst scan_while.simps) auto
  next
    case False
    with "1.prems" show ?thesis
      by (subst scan_while.simps) auto
  qed
qed

lemma NUL_in_drop:
  assumes "j \<le> p" "p < length xs" "xs ! p = x"
  shows "x \<in> set (drop j xs)"
proof -
  from assms have "drop j xs ! (p - j) = x" "p - j < length (drop j xs)" by simp_all
  then show ?thesis by (metis nth_mem)
qed

lemma QueryCheck_scan_returns:
  assumes "unat (entry_ptr (query_state st)) + 1 < length (data (query_state st))"
    and "unat (entry_ptr (query_state st)) \<le> p" "p < length (data (query_state st))"
    and "data (query_state st) ! p = NUL"
  shows "QueryCheck_scan st \<noteq> None"
proof -
  let ?s = "data (query_state st)" and ?len = "unat (entry_ptr (query_state st))"
  from assms(1) scan_while_returns [of "?len + 1" ?s "\<lambda>c. c = CHR '' ''" 0]
  obtain k where k: "scan_while (\<lambda>c. c = CHR '' '') ?s (?len + 1) 0 = Some k" "k \<le> ?len + 1"
    by auto
  from assms(1) scan_while_returns [of ?len ?s "\<lambda>c. c \<noteq> CHR '' ''" k]
  obtain i where i: "scan_while (\<lambda>c. c \<noteq> CHR '' '') ?s ?len k = Some i" "i \<le> max k ?len"
    by auto
  from k i assms(1) have il: "i < length ?s" by simp
  from assms(1) scan_while_returns [of ?len "?s[i := NUL]" "\<lambda>c. c = CHR '' ''" "i + 1"]
  obtain j where j: "scan_while (\<lambda>c. c = CHR '' '') (?s[i := NUL]) ?len (i + 1) = Some j"
    by auto
  have "(?s[i := NUL]) ! p = NUL"
    using assms(3,4) by (cases "p = i") simp_all
  then have "NUL \<in> set (drop j (?s[i := NUL]))" if "j < ?len"
    using that assms(2,3) NUL_in_drop [of j p "?s[i := NUL]" NUL] by simp
  with k i il j show ?thesis
    by (simp add: QueryCheck_scan_def Let_def)
qed

lemma SetDate_returns: "SetDate env s st \<noteq> None"
proof -
  obtain scan_res d month_str y where sc: "sscanf_date env s = (scan_res, d, month_str, y)"
    by (cases "sscanf_date env s") auto
  let ?dt = "\<lparr>year = y, month = FindMonthValue month_str + 1, day = d\<rparr>"
  have "sprintf_date ?dt \<noteq> None" if "fst (systime_SetDate ?dt (systime_state st))"
  proof -
    from that have "0 < month ?dt" "month ?dt \<le> 12"
      by (auto simp: systime_SetDate_def split: if_splits)
    then have "unat (month ?dt) - 1 < 12 \<and> month ?dt \<noteq> 0"
      by (auto simp: word_le_nat_alt word_less_nat_alt)
    then show ?thesis by (simp add: sprintf_date_def)
  qed
  then show ?thesis
    by (auto simp: SetDate_def sc Let_def split: prod.splits bool.splits option.splits)
qed

lemma DisplayDate_returns:
  assumes "date_inv (date (systime_state st))"
  shows "DisplayDate st \<noteq> None"
proof -
  let ?d = "date (systime_state st)"
  from assms have "1 \<le> month ?d" "month ?d \<le> 12" by (simp_all add: date_inv_def)
  then have "unat (month ?d) - 1 < 12 \<and> month ?d \<noteq> 0"
    by (auto simp: word_le_nat_alt)
  then show ?thesis
    by (simp add: DisplayDate_def systime_GetDate_def sprintf_date_def Let_def)
qed

lemma QueryCheck_returns:
  assumes "unat (entry_ptr (query_state st)) + 1 < length (data (query_state st))"
    and "unat (entry_ptr (query_state st)) \<le> p" "p < length (data (query_state st))"
    and "data (query_state st) ! p = NUL"
    and "date_inv (date (systime_state st))"
  shows "QueryCheck env st \<noteq> None"
proof -
  from QueryCheck_scan_returns [OF assms(1-4)] obtain st1 keyword set_data where
    scan: "QueryCheck_scan st = Some (st1, keyword, set_data)" by auto
  then have "systime_state st1 = systime_state st"
    unfolding QueryCheck_scan_def Let_def by (auto split: option.splits if_splits)
  with assms(5) have "DisplayDate st1 \<noteq> None" by (simp add: DisplayDate_returns)
  with scan SetDate_returns [of env _ st1] show ?thesis
    by (auto simp: QueryCheck_def split: option.splits)
qed

subsection \<open>The alarm command\<close>

text \<open>The time displayed by \<^verbatim>\<open>SetAlarm\<close>, on the values of the fields: each of the three
  lower sums is reduced once, and only when it is greater than its limit.\<close>

lemma u8_gt_numeral: "x < 256 \<Longrightarrow> k < 256 \<Longrightarrow> ((of_nat k :: u8) < of_nat x) = (k < x)"
  by (simp add: word_less_nat_alt unat_of_nat)

lemma u8_sub: "k \<le> x \<Longrightarrow> (of_nat x :: u8) - of_nat k = of_nat (x - k)"
  by simp

lemma u8_mod: "x < 256 \<Longrightarrow> k < 256 \<Longrightarrow> (of_nat x :: u8) mod of_nat k = of_nat (x mod k)"
  by (simp add: word_arith_nat_mod unat_of_nat)

lemma SetAlarm_arm_time_of_nat:
  assumes "ha < 100" "ma < 100" "sa < 100" "ta < 100" "hb < 100" "mb < 100" "sb < 100" "tb < 100"
  shows "SetAlarm_arm_time
           \<lparr>hour = of_nat ha, minu = of_nat ma, sec = of_nat sa, t_sec = of_nat ta\<rparr>
           \<lparr>hour = of_nat hb, minu = of_nat mb, sec = of_nat sb, t_sec = of_nat tb\<rparr> =
         (let T = ta + tb; c1 = (if 10 < T then 1 else 0);
              S = sa + sb + c1; c2 = (if 60 < S then 1 else 0);
              M = ma + mb + c2; c3 = (if 60 < M then 1 else 0)
          in \<lparr>hour = of_nat ((ha + hb + c3) mod 24), minu = of_nat (M - 60 * c3),
               sec = of_nat (S - 60 * c2), t_sec = of_nat (T - 10 * c1)\<rparr>)"
proof -
  have n10: "(10 :: u8) = of_nat 10" and n60: "(60 :: u8) = of_nat 60" and n24: "(24 :: u8) = of_nat 24"
    and n1: "(1 :: u8) = of_nat 1"
    by simp_all
  show ?thesis
    unfolding SetAlarm_arm_time_def Let_def
    using assms
    apply (simp only: n10 n60 n24 n1 clock.simps flip: of_nat_add)
    apply (simp only: u8_gt_numeral u8_sub u8_mod clock.simps split: if_splits flip: of_nat_add)
    apply (auto simp: u8_gt_numeral u8_sub u8_mod simp flip: of_nat_add)
    done
qed

text \<open>With both clocks in range and no sum on its limit, the displayed time is the clock of
  the two tick counts added, modulo one day.\<close>

lemma carry_sum:
  fixes ha ma sa ta hb mb sb tb :: nat
  assumes a: "ha < 24" "ma < 60" "sa < 60" "ta < 10" and b: "hb < 24" "mb < 60" "sb < 60" "tb < 10"
    and T: "T = ta + tb" and c1: "c1 = (if 10 < T then 1 else 0)"
    and S: "S = sa + sb + c1" and c2: "c2 = (if 60 < S then 1 else 0)"
    and M: "M = ma + mb + c2" and c3: "c3 = (if 60 < M then 1 else 0)"
    and off: "T \<noteq> 10" "S \<noteq> 60" "M \<noteq> 60"
  shows "T - 10 * c1 < 10" "S - 60 * c2 < 60" "M - 60 * c3 < 60"
    and "(T - 10 * c1) + (S - 60 * c2) * 10 + (M - 60 * c3) * 600 + ((ha + hb + c3) mod 24) * 36000 =
         (ta + sa * 10 + ma * 600 + ha * 36000 + (tb + sb * 10 + mb * 600 + hb * 36000)) mod 864000"
proof -
  show t: "T - 10 * c1 < 10" using a b T c1 off by (simp split: if_splits)
  have c1le: "c1 \<le> 1" using c1 by simp
  show s: "S - 60 * c2 < 60" using a b S c2 c1le off by (simp split: if_splits)
  have c2le: "c2 \<le> 1" using c2 by simp
  show m: "M - 60 * c3 < 60" using a b M c3 c2le off by (simp split: if_splits)
  have c3le: "c3 \<le> 1" using c3 by simp
  let ?r = "(T - 10 * c1) + (S - 60 * c2) * 10 + (M - 60 * c3) * 600"
  let ?H = "ha + hb + c3"
  have tot: "ta + sa * 10 + ma * 600 + ha * 36000 + (tb + sb * 10 + mb * 600 + hb * 36000)
             = ?r + ?H * 36000"
    using a b T S M c1 c2 c3 by (simp split: if_splits)
  have r: "?r < 36000" using t s m by simp
  have H: "?H < 48" using a b c3le by simp
  have "(?r + ?H * 36000) mod 864000 = ?r + (?H mod 24) * 36000"
  proof (cases "?H < 24")
    case True
    with r have "?r + ?H * 36000 < 864000" by simp
    with True show ?thesis by simp
  next
    case False
    then obtain k where k: "?H = 24 + k" "k < 24" using H
      by (metis add_diff_inverse_nat less_diff_conv2 linorder_not_less numeral_Bit0 mult_2)
    with r have "?r + ?H * 36000 = 864000 + (?r + k * 36000)" "?r + k * 36000 < 864000"
      by simp_all
    then have "(?r + ?H * 36000) mod 864000 = ?r + k * 36000"
      by (metis mod_add_self1 mod_less)
    with k show ?thesis by simp
  qed
  then show "?r + (?H mod 24) * 36000 =
         (ta + sa * 10 + ma * 600 + ha * 36000 + (tb + sb * 10 + mb * 600 + hb * 36000)) mod 864000"
    by (simp only: tot)
qed

lemma clock_of_nat: 
  "c = \<lparr>hour = of_nat (unat (hour c)), minu = of_nat (unat (minu c)),
        sec = of_nat (unat (sec c)), t_sec = of_nat (unat (t_sec c))\<rparr>"
  by simp

lemma mod_u32:
  "n < 2 ^ 32 \<Longrightarrow> k < 2 ^ 32 \<Longrightarrow> (of_nat n :: u32) mod of_nat k = of_nat (n mod k)"
  by (simp add: word_arith_nat_mod unat_of_nat)

lemma SetAlarm_arm_time_off_threshold:
  assumes a: "unat (hour a) < 24" "unat (minu a) < 60" "unat (sec a) < 60" "unat (t_sec a) < 10"
    and b: "unat (hour b) < 24" "unat (minu b) < 60" "unat (sec b) < 60" "unat (t_sec b) < 10"
    and T: "T = unat (t_sec a) + unat (t_sec b)" and c1: "c1 = (if 10 < T then 1 else 0)"
    and S: "S = unat (sec a) + unat (sec b) + c1" and c2: "c2 = (if 60 < S then 1 else 0)"
    and M: "M = unat (minu a) + unat (minu b) + c2"
    and off: "T \<noteq> 10" "S \<noteq> 60" "M \<noteq> 60"
  shows "SetAlarm_arm_time a b =
           systime_ConvertTickCounter
             ((systime_ConvertClock a + systime_ConvertClock b) mod TSEC_IN_DAY)"
proof -
  define c3 :: nat where "c3 = (if 60 < M then 1 else 0)"
  let ?ha = "unat (hour a)" and ?ma = "unat (minu a)" and ?sa = "unat (sec a)"
    and ?ta = "unat (t_sec a)"
  let ?hb = "unat (hour b)" and ?mb = "unat (minu b)" and ?sb = "unat (sec b)"
    and ?tb = "unat (t_sec b)"
  note cs = carry_sum [OF a b T c1 S c2 M c3_def off]
  have arm: "SetAlarm_arm_time a b =
      \<lparr>hour = of_nat ((?ha + ?hb + c3) mod 24), minu = of_nat (M - 60 * c3),
       sec = of_nat (S - 60 * c2), t_sec = of_nat (T - 10 * c1)\<rparr>"
    apply (subst clock_of_nat [of a], subst clock_of_nat [of b])
    apply (subst SetAlarm_arm_time_of_nat)
    using a b apply simp_all
    apply (simp add: Let_def T c1 S c2 M c3_def)
    done
  let ?Na = "?ta + ?sa * 10 + ?ma * 600 + ?ha * 36000"
  let ?Nb = "?tb + ?sb * 10 + ?mb * 600 + ?hb * 36000"
  have "systime_ConvertClock a + systime_ConvertClock b = of_nat (?Na + ?Nb)"
    by (simp add: ConvertClock_of_nat)
  moreover have "?Na + ?Nb < 2 ^ 32" using a b by simp
  ultimately have "(systime_ConvertClock a + systime_ConvertClock b) mod 864000 =
      of_nat ((?Na + ?Nb) mod 864000)"
    using mod_u32 [of "?Na + ?Nb" 864000] by simp
  also have "(?Na + ?Nb) mod 864000 =
      (T - 10 * c1) + (S - 60 * c2) * 10 + (M - 60 * c3) * 600 + ((?ha + ?hb + c3) mod 24) * 36000"
    using cs(4) by simp
  finally show ?thesis
    unfolding arm
    using ConvertTickCounter_of_nat [of "(?ha + ?hb + c3) mod 24" "M - 60 * c3" "S - 60 * c2"
        "T - 10 * c1"] cs(1,2,3)
    by simp
qed

text \<open>With both tenths in range, the displayed tenths are in range exactly when the sum is
  not 10.\<close>

lemma SetAlarm_arm_time_t_sec:
  "t_sec (SetAlarm_arm_time a b) =
     (if t_sec a + t_sec b > 10 then t_sec a + t_sec b - 10 else t_sec a + t_sec b)"
  by (simp add: SetAlarm_arm_time_def Let_def)

lemma SetAlarm_arm_time_tenths_in_range_iff:
  assumes "t_sec a < 10" "t_sec b < 10"
  shows "t_sec (SetAlarm_arm_time a b) < 10 \<longleftrightarrow> unat (t_sec a) + unat (t_sec b) \<noteq> 10"
proof -
  from assms have ab: "unat (t_sec a) < 10" "unat (t_sec b) < 10"
    by (simp_all add: word_less_nat_alt)
  then have s: "unat (t_sec a + t_sec b) = unat (t_sec a) + unat (t_sec b)"
    by (simp add: unat_word_ariths)
  have d: "unat (t_sec a + t_sec b - 10) = unat (t_sec a) + unat (t_sec b) - 10"
    if "10 < unat (t_sec a) + unat (t_sec b)"
    using that s by (simp add: unat_sub word_le_nat_alt)
  show ?thesis
    unfolding SetAlarm_arm_time_t_sec using ab s d
    by (auto simp: word_less_nat_alt)
qed

lemma ConvertTickCounter_last_tick:
  "systime_ConvertTickCounter 863999 = \<lparr>hour = 23, minu = 59, sec = 59, t_sec = 9\<rparr>"
  by (simp add: systime_ConvertTickCounter_def Let_def)

lemma arm_time_last_tick:
  "SetAlarm_arm_time \<lparr>hour = 0, minu = 0, sec = 0, t_sec = 1\<rparr>
     \<lparr>hour = 23, minu = 59, sec = 59, t_sec = 9\<rparr> =
   \<lparr>hour = 23, minu = 59, sec = 59, t_sec = 10\<rparr>"
  by (simp add: SetAlarm_arm_time_def Let_def)

lemma sprintf_clock_last_tick:
  "sprintf_clock \<lparr>hour = 23, minu = 59, sec = 59, t_sec = 10\<rparr> = ''23:59:59.10''"
  by code_simp

text \<open>C6. The property: for every current time and every successfully parsed alarm
  argument, the time that \<^verbatim>\<open>SetAlarm\<close> displays is the sum of the current clock and the
  entered clock with correct carry, every displayed field within its range, also when a
  field sum lands exactly on its carry threshold. The code carries only when a sum is
  greater than its threshold. One tick before midnight (tick count 863999, 23:59:59.9)
  with the argument 00:00:00.1, whose sum of tenths is exactly 10, it displays 23:59:59.10
  and not 00:00:00.0: the tenths field is 10 and nothing has been carried.\<close>

theorem C6_arm_time_threshold_not_carried:
  "SetAlarm (extern_fixed (4, \<lparr>hour = 0, minu = 0, sec = 0, t_sec = 1\<rparr>) (0, 0, [], 0))
     ''00:00:00.1'' (monitor_at 863999 [] 0 0) =
   (True,
    \<lparr>systime_state =
       systime_init\<lparr>counter_value := 863999, countdown_cb := Some Alarm_cb,
                     countdown_value := 1, countdown_en := True\<rparr>,
     query_state = \<lparr>data = [], wr_ptr = 0, entry_ptr = 0\<rparr>,
     uart_tx = [''Alarm at '', ''23:59:59.10'', [CHR '' '', NL]]\<rparr>) \<and>
   systime_GetTime (systime_init\<lparr>counter_value := 863999\<rparr>) =
     \<lparr>hour = 23, minu = 59, sec = 59, t_sec = 9\<rparr> \<and>
   SetAlarm_arm_time \<lparr>hour = 0, minu = 0, sec = 0, t_sec = 1\<rparr>
     \<lparr>hour = 23, minu = 59, sec = 59, t_sec = 9\<rparr> =
   \<lparr>hour = 23, minu = 59, sec = 59, t_sec = 10\<rparr> \<and>
   \<not> t_sec (SetAlarm_arm_time \<lparr>hour = 0, minu = 0, sec = 0, t_sec = 1\<rparr>
              \<lparr>hour = 23, minu = 59, sec = 59, t_sec = 9\<rparr>) < TSEC_IN_SEC"
  by (simp add: SetAlarm_def extern_fixed_def monitor_at_def systime_SetAlarm_def
      systime_GetTime_def UART0_puts_def systime_ConvertClock_def
      ConvertTickCounter_last_tick arm_time_last_tick sprintf_clock_last_tick)

text \<open>C10. For every alarm argument from which \<^verbatim>\<open>sscanf\<close> extracts 4 fields,
  \<^verbatim>\<open>SetAlarm\<close> checks no range: it passes the parsed clock to \<^verbatim>\<open>systime_SetAlarm\<close>,
  which checks nothing either, arms the countdown with the converted clock and returns
  true, and \<^verbatim>\<open>SetAlarm\<close> reports success. The same parsed clock is refused by
  \<^verbatim>\<open>SetTime\<close> when a field is out of range, with the state unchanged.\<close>

theorem C10_alarm_not_range_checked:
  "(sscanf_clock env alarm_str = (4, c) \<longrightarrow>
      fst (SetAlarm env alarm_str st) \<and>
      systime_state (snd (SetAlarm env alarm_str st)) =
        (systime_state st)\<lparr>countdown_cb := Some Alarm_cb,
                            countdown_value := systime_ConvertClock c,
                            countdown_en := True\<rparr>) \<and>
   systime_SetAlarm c cb t =
     (True, t\<lparr>countdown_cb := Some cb, countdown_value := systime_ConvertClock c,
              countdown_en := True\<rparr>) \<and>
   (sscanf_clock env alarm_str = (4, c) \<and>
    \<not> (hour c < 24 \<and> minu c < 60 \<and> sec c < 60 \<and> t_sec c < 10) \<longrightarrow>
      SetTime env alarm_str st = (False, st))"
  by (simp add: SetAlarm_def SetTime_def systime_SetTime_def systime_SetAlarm_def UART0_puts_def
      Let_def)

theorem C10_alarm_not_range_checked_witness:
  "sscanf_clock (extern_fixed (4, \<lparr>hour = 99, minu = 99, sec = 99, t_sec = 9\<rparr>) (0, 0, [], 0))
     ''99:99:99.9'' = (4, \<lparr>hour = 99, minu = 99, sec = 99, t_sec = 9\<rparr>) \<and>
   fst (SetAlarm (extern_fixed (4, \<lparr>hour = 99, minu = 99, sec = 99, t_sec = 9\<rparr>) (0, 0, [], 0))
          ''99:99:99.9'' (monitor_at 0 [] 0 0)) \<and>
   countdown_en (systime_state
     (snd (SetAlarm (extern_fixed (4, \<lparr>hour = 99, minu = 99, sec = 99, t_sec = 9\<rparr>) (0, 0, [], 0))
             ''99:99:99.9'' (monitor_at 0 [] 0 0)))) \<and>
   countdown_value (systime_state
     (snd (SetAlarm (extern_fixed (4, \<lparr>hour = 99, minu = 99, sec = 99, t_sec = 9\<rparr>) (0, 0, [], 0))
             ''99:99:99.9'' (monitor_at 0 [] 0 0)))) = 3624399 \<and>
   SetTime (extern_fixed (4, \<lparr>hour = 99, minu = 99, sec = 99, t_sec = 9\<rparr>) (0, 0, [], 0))
     ''99:99:99.9'' (monitor_at 0 [] 0 0) = (False, monitor_at 0 [] 0 0)"
  using C10_alarm_not_range_checked
    [of "extern_fixed (4, \<lparr>hour = 99, minu = 99, sec = 99, t_sec = 9\<rparr>) (0, 0, [], 0)"
        "''99:99:99.9''" "\<lparr>hour = 99, minu = 99, sec = 99, t_sec = 9\<rparr>" "monitor_at 0 [] 0 0"]
  by (simp add: extern_fixed_def systime_ConvertClock_def)

subsection \<open>The date command\<close>

text \<open>C7. For every month string whose first three bytes match none of the 12 entries of
  the month table, \<^verbatim>\<open>FindMonthValue\<close> returns 12, one past the last 0-based month. The
  month handed to \<^verbatim>\<open>systime_SetDate\<close> is then 13, which it refuses, and \<^verbatim>\<open>SetDate\<close>
  returns false with the state, and so the stored date, unchanged.\<close>

theorem C7_unknown_month_rejected:
  assumes "take 3 month_str \<notin> set MONTHS"
  shows "FindMonthValue month_str = 12 \<and>
         FindMonthValue month_str + 1 = 13 \<and>
         systime_SetDate \<lparr>year = y, month = FindMonthValue month_str + 1, day = d\<rparr> t =
           (False, t) \<and>
         (sscanf_date env new_date_str = (scan_res, d, month_str, y) \<longrightarrow>
            SetDate env new_date_str st = Some (False, st))"
  using FindMonthValue_no_match [OF assms]
  by (simp add: SetDate_def systime_SetDate_def Let_def)

theorem C7_unknown_month_rejected_witness:
  "take 3 ''XYZ'' \<notin> set MONTHS \<and>
   FindMonthValue ''XYZ'' = 12 \<and>
   systime_SetDate \<lparr>year = 2021, month = FindMonthValue ''XYZ'' + 1, day = 15\<rparr> systime_init =
     (False, systime_init) \<and>
   SetDate (extern_fixed (0, \<lparr>hour = 0, minu = 0, sec = 0, t_sec = 0\<rparr>) (3, 15, ''XYZ'', 2021))
     ''15-XYZ-2021'' (monitor_at 0 [] 0 0) = Some (False, monitor_at 0 [] 0 0)"
proof -
  have h: "take 3 ''XYZ'' \<notin> set MONTHS" by (simp add: MONTHS_def)
  show ?thesis
    using h C7_unknown_month_rejected [OF h, of 2021 15 systime_init
        "extern_fixed (0, \<lparr>hour = 0, minu = 0, sec = 0, t_sec = 0\<rparr>) (3, 15, ''XYZ'', 2021)"
        "''15-XYZ-2021''" 3 "monitor_at 0 [] 0 0"]
    by (simp add: extern_fixed_def systime_SetDate_def)
qed

subsection \<open>The cursor keys\<close>

text \<open>C9. For every buffer state, the right-arrow handler (code C) advances the cursor
  by one when the cursor is below the entry length, writing nothing; otherwise it leaves
  the cursor where it is and writes one leftward-motion sequence. The left-arrow handler
  (code D) moves the cursor back by one when it is above 0, writing nothing; otherwise
  it leaves the cursor where it is and writes one rightward-motion sequence.\<close>

theorem C9_arrow_keys:
  "CursorCodeCheck (sqbkrt # CHR ''C'' # rx) st =
     Some (rx,
       if wr_ptr (query_state st) < entry_ptr (query_state st)
       then st\<lparr>query_state := (query_state st)\<lparr>wr_ptr := wr_ptr (query_state st) + 1\<rparr>\<rparr>
       else st\<lparr>uart_tx := uart_tx st @ [CURSOR_LEFT]\<rparr>) \<and>
   CursorCodeCheck (sqbkrt # CHR ''D'' # rx) st =
     Some (rx,
       if wr_ptr (query_state st) > 0
       then st\<lparr>query_state := (query_state st)\<lparr>wr_ptr := wr_ptr (query_state st) - 1\<rparr>\<rparr>
       else st\<lparr>uart_tx := uart_tx st @ [CURSOR_RIGHT]\<rparr>) \<and>
   (wr_ptr (query_state st) < entry_ptr (query_state st) \<longrightarrow>
      unat (wr_ptr (query_state st) + 1) = unat (wr_ptr (query_state st)) + 1) \<and>
   (wr_ptr (query_state st) > 0 \<longrightarrow>
      unat (wr_ptr (query_state st) - 1) = unat (wr_ptr (query_state st)) - 1)"
  by (simp add: CursorCodeCheck_def UART0_puts_def Let_def unat_Suc_lt unat_pred_gt0)

theorem C9_arrow_keys_witness:
  "CursorCodeCheck [CHR ''['', CHR ''C''] (monitor_at 0 ''TIME'' 2 4) =
     Some ([], (monitor_at 0 ''TIME'' 3 4)) \<and>
   CursorCodeCheck [CHR ''['', CHR ''C''] (monitor_at 0 ''TIME'' 4 4) =
     Some ([], (monitor_at 0 ''TIME'' 4 4)\<lparr>uart_tx := [CURSOR_LEFT]\<rparr>) \<and>
   CursorCodeCheck [CHR ''['', CHR ''D''] (monitor_at 0 ''TIME'' 2 4) =
     Some ([], (monitor_at 0 ''TIME'' 1 4)) \<and>
   CursorCodeCheck [CHR ''['', CHR ''D''] (monitor_at 0 ''TIME'' 0 4) =
     Some ([], (monitor_at 0 ''TIME'' 0 4)\<lparr>uart_tx := [CURSOR_RIGHT]\<rparr>)"
  using C9_arrow_keys [of "CHR ''[''" "[]" "monitor_at 0 ''TIME'' 2 4"]
    C9_arrow_keys [of "CHR ''[''" "[]" "monitor_at 0 ''TIME'' 4 4"]
    C9_arrow_keys [of "CHR ''[''" "[]" "monitor_at 0 ''TIME'' 0 4"]
  by (simp add: monitor_at_def)


subsection \<open>Runs of the byte handler\<close>

lemma toupper_e: "toupper (CHR ''e'') = CHR ''E''"
  by code_simp


lemma QueryHandler_Update_insert_full:
  "QueryHandler_Update env ''e'' (monitor_at 0 ''TIME'' 4 4) =
     Some ([], (monitor_at 0 ''TIME'' 4 4)\<lparr>uart_tx := [[CHR 0x08]]\<rparr>)"
  by (simp add: QueryHandler_Update_def monitor_at_def enqueuec_s_def toupper_e Let_def
      UART0_puts_def)

lemma QueryHandler_Update_erase:
  "QueryHandler_Update env [CHR 0x7F] (monitor_at 0 ''TIME'' 3 4) = Some ([], monitor_at 0 ''TIME'' 2 3)"
  by (simp add: QueryHandler_Update_def monitor_at_def Let_def)

lemma QueryHandler_Update_down_key:
  "QueryHandler_Update env [CHR 0x1B, CHR ''['', CHR ''B''] (monitor_at 0 ''TIME'' 2 4) =
     Some ([], (monitor_at 0 ''TIME'' 4 4)\<lparr>uart_tx := [CURSOR_UP, CURSOR_RIGHT, CURSOR_RIGHT]\<rparr>)"
  by (simp add: QueryHandler_Update_def CursorCodeCheck_def monitor_at_def Let_def
      UART0_puts_def cursor_to_end.simps)


lemma QueryHandler_Update_commit:
  "QueryHandler_Update env [CHR 0x0D] (monitor_at 5 (''TIME'' @ replicate 4 NUL) 4 4) =
     Some ([], (monitor_at 5 (''TIME'' @ replicate 4 NUL) 0 0)
                 \<lparr>uart_tx := [''00:00:00.5'', [CHR '' '', NL], ''> '']\<rparr>)"
  by code_simp

subsection \<open>The edit-buffer invariant\<close>

text \<open>A commit returns, and keeps the invariant, when the entry ends two bytes or more
  before the end of the array, the array holds a NUL at or behind the end of the entry, and
  the stored date has a month name.\<close>

lemma QueryHandler_Update_commit_returns:
  assumes "query_inv (query_state st)"
    and "data_c = CHR 0x0D \<or> data_c = CHR 0x0A"
    and "unat (entry_ptr (query_state st)) + 1 < length (data (query_state st))"
    and "unat (entry_ptr (query_state st)) \<le> p" "p < length (data (query_state st))"
    and "data (query_state st) ! p = NUL"
    and "date_inv (date (systime_state st))"
  shows "\<exists>rx1 st1. QueryHandler_Update env (data_c # rx) st = Some (rx1, st1) \<and>
                    query_inv (query_state st1)"
proof -
  from QueryCheck_returns [OF assms(3-7), of env]
  have "data_c = CHR 0x0D \<or> data_c = CHR 0x0A \<longrightarrow> QueryCheck env st \<noteq> None" by simp
  with assms(2) QueryHandler_Update_returns [of "data_c # rx" data_c rx env st]
  obtain rx1 st1 where r: "QueryHandler_Update env (data_c # rx) st = Some (rx1, st1)"
    by auto
  from QueryHandler_Update_inv [OF assms(1) r] r show ?thesis by blast
qed





end
